theory Spec2Isabelle
  imports Main "HOL-Library.AList"
begin

section \<open>Values of the host language\<close>

text \<open>
  The class \<^verbatim>\<open>Storage\<close> of \<^verbatim>\<open>packages/storage/src/browser/storage.ts\<close> keeps
  strings, but \<^verbatim>\<open>set\<close> takes \<^verbatim>\<open>object | string | boolean | number | null | undefined\<close>
  and \<^verbatim>\<open>get\<close> hands back whatever \<^verbatim>\<open>JSON.parse\<close> produced. The values are a
  datatype. A number is an integer or \<^verbatim>\<open>NaN\<close> (what \<^verbatim>\<open>parseInt\<close> can return);
  numbers with a fraction are not part of the value type. A string is a \<open>char list\<close>.
\<close>

datatype number = NaN | Finite int

datatype jsvalue =
    Undefined
  | Null
  | Bool bool
  | Num number
  | Str string
  | Arr "jsvalue list"
  | Obj "(string \<times> jsvalue) list"

text \<open>
  Modelled from the spec: \<^verbatim>\<open>isUndefinedOrNull\<close> is imported from the core-common
  package, whose file is not among the sources. The spec (4.3) says that a value of
  null or undefined is redirected to \<^verbatim>\<open>delete\<close>, and (4.2) that \<^verbatim>\<open>get\<close> returns the
  fallback when the value is null or undefined.
\<close>

definition isUndefinedOrNull :: "jsvalue \<Rightarrow> bool" where
  "isUndefinedOrNull v \<longleftrightarrow> v = Undefined \<or> v = Null"

text \<open>
  \<^verbatim>\<open>JSON.parse\<close>, \<^verbatim>\<open>JSON.stringify\<close> and \<^verbatim>\<open>parseInt(_, 10)\<close> belong to the language,
  not to the repository. The operations of the class take them as a parameter, so
  that a theorem stated for every \<open>J\<close> holds of the real functions whatever they do
  on an input. \<open>JSON_parse J s = None\<close> stands for the \<^verbatim>\<open>SyntaxError\<close> that
  \<^verbatim>\<open>JSON.parse\<close> throws. \<open>JSON_stringify\<close> is only ever applied to a value that is
  neither null nor undefined, where \<^verbatim>\<open>JSON.stringify\<close> returns a string.
\<close>

record builtins =
  JSON_parse :: "string \<Rightarrow> jsvalue option"
  JSON_stringify :: "jsvalue \<Rightarrow> string"
  parseInt :: "jsvalue \<Rightarrow> number"

section \<open>The state of a Storage and of what it talks to\<close>

text \<open>
  A \<^verbatim>\<open>Map<string, string>\<close> is an association list in insertion order: \<open>map_of\<close> is
  \<^verbatim>\<open>Map.get\<close>, \<open>AList.update\<close> is \<^verbatim>\<open>Map.set\<close> (an existing key keeps its place, a new
  one goes last) and \<open>AList.delete\<close> is \<^verbatim>\<open>Map.delete\<close>. A \<^verbatim>\<open>Set<string>\<close> is the list
  of its members in insertion order. A plain object with string values (the
  \<^verbatim>\<open>insert\<close> part of a request, the data of the local mirror, the items the store
  returns) is an association list as well; the order in which a JavaScript object
  enumerates keys that look like integers is not modelled.
\<close>

type_synonym object = "(string \<times> string) list"

datatype StorageState = None' | Initialized | Closed

record IUpdateRequest =
  insert' :: object
  delete' :: "string list"

text \<open>
  The durable store (\<^verbatim>\<open>IStorageServer\<close>) is outside the class. The model keeps the
  calls it has received, oldest first. \<open>DbClose\<close> carries what the snapshot accessor
  \<^verbatim>\<open>() => this.cache\<close> returns when the store calls it at once.
\<close>

datatype db_call =
    DbInit "string option" "string option"
  | DbGetItems string
  | DbUpdateItems string IUpdateRequest
  | DbClose object

text \<open>
  What a call returns: \<open>Resolved\<close> is \<^verbatim>\<open>Promise.resolve()\<close>; \<open>Triggered\<close> is the
  promise of \<^verbatim>\<open>flushDelayer.trigger\<close>, which settles as the flush it schedules does
  and so may be rejected.
\<close>

datatype promise = Resolved | Triggered

text \<open>
  How an asynchronous call that the model runs to its end settles. \<open>Pending\<close>: it
  is suspended at \<^verbatim>\<open>await this.whenReady\<close> and the readiness signal has not been
  resolved; the state returned is the one at the suspension.
\<close>

datatype outcome = Fulfilled | Rejected | Pending

text \<open>
  The fields of the class, with the collaborators it was constructed with.
  \<open>onDidChangeStorage\<close> is the list of keys the emitter has fired, oldest first.
  \<open>readyDeferred\<close> tells whether the current readiness signal has been resolved.

  Modelled from the spec: \<^verbatim>\<open>ThrottledDelayer\<close> is imported from the core-common
  package, whose file is not among the sources. The spec (4.4) describes one
  debounced trigger: triggering while a trigger is already scheduled adds no second
  durable write, the calls are coalesced into the one forthcoming flush.
  \<open>flushDelayer = Some d\<close> says that a flush is scheduled, with the delay \<open>d\<close> of the
  last trigger; \<open>None\<close> that none is.
\<close>

record Storage =
  database :: "db_call list"
  workspace_uri :: "string option"
  storageDirName :: "string option"
  storageName :: string
  browserLocalStroage :: "(string \<rightharpoonup> object) option"
  onDidChangeStorage :: "string list"
  flushDelayer :: "nat option"
  state :: StorageState
  cache :: object
  pendingDeletes :: "string list"
  pendingInserts :: object
  readyDeferred :: bool

definition DEFAULT_FLUSH_DELAY :: nat where
  "DEFAULT_FLUSH_DELAY = 200"

text \<open>The constructor, up to its call of \<^verbatim>\<open>setup\<close>, which completes later.\<close>

definition new_Storage ::
  "string option \<Rightarrow> string option \<Rightarrow> string \<Rightarrow> (string \<rightharpoonup> object) option \<Rightarrow> Storage" where
  "new_Storage uri dir name mirror =
     \<lparr>database = [], workspace_uri = uri, storageDirName = dir, storageName = name,
      browserLocalStroage = mirror, onDidChangeStorage = [], flushDelayer = None,
      state = None', cache = [], pendingDeletes = [], pendingInserts = [],
      readyDeferred = False\<rparr>"

section \<open>Helpers\<close>

text \<open>\<^verbatim>\<open>obj[k] = v\<close> for each entry in turn.\<close>

definition assign :: "object \<Rightarrow> object \<Rightarrow> object" where
  "assign obj entries = foldl (\<lambda>acc (k, v). AList.update k v acc) obj entries"

definition mapToJson :: "object \<Rightarrow> object" where
  "mapToJson m = assign [] m"

definition jsonToMap :: "object \<Rightarrow> object" where
  "jsonToMap json = assign [] json"

definition fire :: "string \<Rightarrow> Storage \<Rightarrow> Storage" where
  "fire key st = st\<lparr>onDidChangeStorage := onDidChangeStorage st @ [key]\<rparr>"

definition trigger :: "nat \<Rightarrow> Storage \<Rightarrow> promise \<times> Storage" where
  "trigger delay st = (Triggered, st\<lparr>flushDelayer := Some delay\<rparr>)"

text \<open>
  The calls on the durable store. Whether the store answers or fails is the
  environment's choice, given as \<open>ok\<close>.
\<close>

definition database_updateItems ::
  "bool \<Rightarrow> string \<Rightarrow> IUpdateRequest \<Rightarrow> Storage \<Rightarrow> outcome \<times> Storage" where
  "database_updateItems ok name request st =
     (if ok then Fulfilled else Rejected,
      st\<lparr>database := database st @ [DbUpdateItems name request]\<rparr>)"

definition database_close :: "bool \<Rightarrow> Storage \<Rightarrow> outcome \<times> Storage" where
  "database_close ok st =
     (if ok then Fulfilled else Rejected,
      st\<lparr>database := database st @ [DbClose (cache st)]\<rparr>)"

section \<open>Initialisation\<close>

text \<open>What the durable store answers to \<^verbatim>\<open>init\<close> followed by \<^verbatim>\<open>getItems\<close>.\<close>

datatype db_answer = InitFails | GetItemsFails | Items object

text \<open>
  What \<^verbatim>\<open>init\<close> holds in \<^verbatim>\<open>cache\<close> after lines 74-76: the data of the local mirror,
  or \<open>None\<close> (\<^verbatim>\<open>undefined\<close>) when no mirror is configured or the mirror has no data
  for the name.
\<close>

definition getData :: "string \<Rightarrow> Storage \<Rightarrow> object option" where
  "getData name st = (case browserLocalStroage st of None \<Rightarrow> None | Some mirror \<Rightarrow> mirror name)"

text \<open>\<^verbatim>\<open>init\<close> (lines 71-87), run from its first line to its last.\<close>

definition init :: "string \<Rightarrow> db_answer \<Rightarrow> Storage \<Rightarrow> outcome \<times> Storage" where
  "init name answer st =
     (case getData name st of
        Some data \<Rightarrow>
          (Fulfilled, st\<lparr>cache := jsonToMap data, state := Initialized, readyDeferred := True\<rparr>)
      | None \<Rightarrow>
          (let st1 = st\<lparr>database := database st @ [DbInit (storageDirName st) (workspace_uri st)]\<rparr>
           in case answer of
             InitFails \<Rightarrow> (Rejected, st1)
           | GetItemsFails \<Rightarrow> (Rejected, st1\<lparr>database := database st1 @ [DbGetItems name]\<rparr>)
           | Items data \<Rightarrow>
               (let st2 = st1\<lparr>database := database st1 @ [DbGetItems name]\<rparr>;
                    st3 = (case browserLocalStroage st2 of
                             None \<Rightarrow> st2
                           | Some mirror \<Rightarrow> st2\<lparr>browserLocalStroage := Some (mirror(name \<mapsto> data))\<rparr>)
                in (Fulfilled,
                    st3\<lparr>cache := jsonToMap data, state := Initialized, readyDeferred := True\<rparr>))))"

definition reConnectInit :: "db_answer \<Rightarrow> Storage \<Rightarrow> outcome \<times> Storage" where
  "reConnectInit answer st = init (storageName st) answer (st\<lparr>readyDeferred := False\<rparr>)"

section \<open>Reading\<close>

text \<open>
  \<^verbatim>\<open>get\<close> (lines 102-115). The second component is what \<^verbatim>\<open>logger.error\<close> was
  called with: the raw strings that could not be parsed.
\<close>

definition get ::
  "builtins \<Rightarrow> Storage \<Rightarrow> string \<Rightarrow> string option \<Rightarrow> jsvalue \<times> string list" where
  "get J st key fallbackValue =
     (case map_of (cache st) key of
        None \<Rightarrow> (case fallbackValue of None \<Rightarrow> (Undefined, []) | Some s \<Rightarrow> (Str s, []))
      | Some raw \<Rightarrow>
          (case JSON_parse J raw of
             Some parsed \<Rightarrow> (parsed, [])
           | None \<Rightarrow> (Str raw, [raw])))"

definition getBoolean ::
  "builtins \<Rightarrow> Storage \<Rightarrow> string \<Rightarrow> bool option \<Rightarrow> bool option \<times> string list" where
  "getBoolean J st key fallbackValue =
     (let (v, logged) = get J st key None
      in if isUndefinedOrNull v then (fallbackValue, logged)
         else (Some (v = Str ''true''), logged))"

definition getNumber ::
  "builtins \<Rightarrow> Storage \<Rightarrow> string \<Rightarrow> number option \<Rightarrow> number option \<times> string list" where
  "getNumber J st key fallbackValue =
     (let (v, logged) = get J st key None
      in if isUndefinedOrNull v then (fallbackValue, logged)
         else (Some (parseInt J v), logged))"

section \<open>Writing\<close>

text \<open>\<^verbatim>\<open>delete\<close> (lines 172-194).\<close>

definition delete :: "string \<Rightarrow> Storage \<Rightarrow> promise \<times> Storage" where
  "delete key st =
     (if state st = Closed then (Resolved, st)
      else if key \<notin> set (map fst (cache st)) then (Resolved, st)
      else trigger DEFAULT_FLUSH_DELAY
             (fire key
                (st\<lparr>cache := AList.delete key (cache st),
                    pendingDeletes :=
                      (if key \<in> set (pendingDeletes st) then pendingDeletes st
                       else pendingDeletes st @ [key]),
                    pendingInserts := AList.delete key (pendingInserts st)\<rparr>)))"

text \<open>\<^verbatim>\<open>set\<close> (lines 141-170).\<close>

definition set' :: "builtins \<Rightarrow> string \<Rightarrow> jsvalue \<Rightarrow> Storage \<Rightarrow> promise \<times> Storage" where
  "set' J key v st =
     (if state st = Closed then (Resolved, st)
      else if isUndefinedOrNull v then delete key st
      else
        (let valueStr = JSON_stringify J v;
             currentValue = map_of (cache st) key
         in if currentValue = Some valueStr then (Resolved, st)
            else trigger DEFAULT_FLUSH_DELAY
                   (fire key
                      (st\<lparr>cache := AList.update key valueStr (cache st),
                          pendingInserts := AList.update key valueStr (pendingInserts st),
                          pendingDeletes := removeAll key (pendingDeletes st)\<rparr>))))"

section \<open>Flushing and closing\<close>

text \<open>
  Lines 229-241 of \<^verbatim>\<open>flushPending\<close>: the batch is applied to the local mirror when
  one is configured and holds data for the namespace.
\<close>

definition syncMirror :: "IUpdateRequest \<Rightarrow> Storage \<Rightarrow> Storage" where
  "syncMirror request st =
     (case browserLocalStroage st of
        None \<Rightarrow> st
      | Some mirror \<Rightarrow>
          (case mirror (storageName st) of
             None \<Rightarrow> st
           | Some data \<Rightarrow>
               st\<lparr>browserLocalStroage :=
                    Some (mirror(storageName st \<mapsto>
                      assign (assign [] (fold AList.delete (delete' request) data))
                        (insert' request)))\<rparr>))"

text \<open>
  \<^verbatim>\<open>flushPending\<close> (lines 217-249), run without another call of the class in
  between. \<open>ok\<close> tells whether the store's \<^verbatim>\<open>updateItems\<close> succeeds.
\<close>

definition flushPending :: "bool \<Rightarrow> Storage \<Rightarrow> outcome \<times> Storage" where
  "flushPending ok st =
     (if \<not> readyDeferred st then (Pending, st)
      else if pendingInserts st = [] \<and> pendingDeletes st = [] then (Fulfilled, st)
      else
        (let updateRequest =
               \<lparr>insert' = mapToJson (pendingInserts st), delete' = pendingDeletes st\<rparr>;
             st1 = syncMirror updateRequest st;
             st2 = st1\<lparr>pendingDeletes := [], pendingInserts := []\<rparr>
         in database_updateItems ok (storageName st2) updateRequest st2))"

text \<open>
  The scheduled flush comes due: the delayer runs \<^verbatim>\<open>() => this.flushPending()\<close>.
  While the readiness signal is unresolved the flush stays scheduled.
\<close>

definition runScheduledFlush :: "bool \<Rightarrow> Storage \<Rightarrow> outcome \<times> Storage" where
  "runScheduledFlush ok st =
     (case flushDelayer st of
        None \<Rightarrow> (Fulfilled, st)
      | Some delay \<Rightarrow>
          if \<not> readyDeferred st then (Pending, st)
          else flushPending ok (st\<lparr>flushDelayer := None\<rparr>))"

text \<open>
  \<^verbatim>\<open>close\<close> (lines 196-215). \<open>flush_ok\<close> and \<open>close_ok\<close> tell whether the store's
  \<^verbatim>\<open>updateItems\<close> and \<^verbatim>\<open>close\<close> succeed. The trigger with delay 0 puts the flush
  first in line, and \<^verbatim>\<open>close\<close> waits for it.
\<close>

definition close :: "bool \<Rightarrow> bool \<Rightarrow> Storage \<Rightarrow> outcome \<times> Storage" where
  "close flush_ok close_ok st =
     (if state st = Closed then (Fulfilled, st)
      else
        (let st1 = st\<lparr>state := Closed\<rparr>;
             st2 = snd (trigger 0 st1);
             (flushed, st3) = runScheduledFlush flush_ok st2
         in if flushed = Pending then (Pending, st3)
            else database_close close_ok st3))"


section \<open>An instance of the language's functions\<close>

text \<open>
  The closed examples below need \<^verbatim>\<open>JSON.parse\<close>, \<^verbatim>\<open>JSON.stringify\<close> and
  \<^verbatim>\<open>parseInt(_, 10)\<close> on concrete inputs. \<open>ECMAScript\<close> follows the JSON grammar
  (ECMA-404) and the ECMAScript definitions of the three functions on the values
  of \<open>jsvalue\<close>: texts are read by a lexer and a stack machine over its tokens, both
  recursive on their input alone. A text that denotes a value outside \<open>jsvalue\<close> (a
  number literal with a fraction or an exponent, an escape
  \<^verbatim>\<open>\uXXXX\<close> above \<^verbatim>\<open>\u00FF\<close>) is answered \<open>None\<close>; no theorem evaluates the instance on such a
  text, and the theorems stated for every \<open>J\<close> do not depend on the instance.
  Integers print in full, also beyond the range in which a double is exact.
\<close>

definition is_digit :: "char \<Rightarrow> bool" where
  "is_digit c \<longleftrightarrow> 48 \<le> (of_char c :: nat) \<and> (of_char c :: nat) \<le> 57"

definition digits_value :: "string \<Rightarrow> nat" where
  "digits_value ds = foldl (\<lambda>n c. 10 * n + ((of_char c :: nat) - 48)) 0 ds"

definition is_json_ws :: "char \<Rightarrow> bool" where
  "is_json_ws c \<longleftrightarrow> c \<in> set [CHR 0x20, CHR 0x09, CHR 0x0A, CHR 0x0D]"

definition hex_value :: "char \<Rightarrow> nat option" where
  "hex_value c =
     (let n = (of_char c :: nat)
      in if 48 \<le> n \<and> n \<le> 57 then Some (n - 48)
         else if 65 \<le> n \<and> n \<le> 70 then Some (n - 55)
         else if 97 \<le> n \<and> n \<le> 102 then Some (n - 87)
         else None)"

text \<open>
  The lexer reads one character at a time; its state says whether it is between
  tokens, inside a string (with the characters read so far, last first), just after
  a backslash, or inside a number (with its sign and its digits so far, last
  first). A number may not start with a superfluous zero and must be followed by
  white space, a comma, a closing bracket or the end of the text.
\<close>

datatype token = LBracket | RBracket | LBrace | RBrace | Comma | Colon | Scalar jsvalue

datatype lexer = Between | InString string | InEscape string | InNumber bool string

definition emit :: "token list \<Rightarrow> token list option \<Rightarrow> token list option" where
  "emit ts rest = map_option (\<lambda>r. ts @ r) rest"

definition number_token :: "bool \<Rightarrow> string \<Rightarrow> token option" where
  "number_token negative rev_digits =
     (case rev rev_digits of
        [] \<Rightarrow> None
      | d # ds \<Rightarrow>
          if d = CHR ''0'' \<and> ds \<noteq> [] then None
          else Some (Scalar (Num (Finite
                 (if negative then - int (digits_value (d # ds)) else int (digits_value (d # ds)))))))"

definition after_number :: "char \<Rightarrow> token list option" where
  "after_number c =
     (if is_json_ws c then Some []
      else if c = CHR '','' then Some [Comma]
      else if c = CHR '']'' then Some [RBracket]
      else if c = CHR ''}'' then Some [RBrace]
      else None)"

definition unescape :: "char \<Rightarrow> char option" where
  "unescape c =
     (if c = CHR 0x22 \<or> c = CHR 0x5C \<or> c = CHR ''/'' then Some c
      else if c = CHR ''b'' then Some (CHR 0x08)
      else if c = CHR ''f'' then Some (CHR 0x0C)
      else if c = CHR ''n'' then Some (CHR 0x0A)
      else if c = CHR ''r'' then Some (CHR 0x0D)
      else if c = CHR ''t'' then Some (CHR 0x09)
      else None)"

definition unicode_escape :: "string \<Rightarrow> char option" where
  "unicode_escape hs =
     (case map hex_value hs of
        [Some a, Some b, Some c, Some d] \<Rightarrow>
          if a = 0 \<and> b = 0 then Some (char_of (16 * c + d)) else None
      | _ \<Rightarrow> None)"

fun lex :: "lexer \<Rightarrow> string \<Rightarrow> token list option" where
  "lex Between [] = Some []"
| "lex (InString acc) [] = None"
| "lex (InEscape acc) [] = None"
| "lex (InNumber negative ds) [] = map_option (\<lambda>t. [t]) (number_token negative ds)"
| "lex Between (c # cs) =
     (if is_json_ws c then lex Between cs
      else if c = CHR 0x22 then lex (InString []) cs
      else if c = CHR ''-'' then lex (InNumber True []) cs
      else if is_digit c then lex (InNumber False [c]) cs
      else if c = CHR ''['' then emit [LBracket] (lex Between cs)
      else if c = CHR '']'' then emit [RBracket] (lex Between cs)
      else if c = CHR ''{'' then emit [LBrace] (lex Between cs)
      else if c = CHR ''}'' then emit [RBrace] (lex Between cs)
      else if c = CHR '','' then emit [Comma] (lex Between cs)
      else if c = CHR '':'' then emit [Colon] (lex Between cs)
      else if c = CHR ''t'' \<and> take 3 cs = ''rue'' then emit [Scalar (Bool True)] (lex Between (drop 3 cs))
      else if c = CHR ''f'' \<and> take 4 cs = ''alse'' then emit [Scalar (Bool False)] (lex Between (drop 4 cs))
      else if c = CHR ''n'' \<and> take 3 cs = ''ull'' then emit [Scalar Null] (lex Between (drop 3 cs))
      else None)"
| "lex (InString acc) (c # cs) =
     (if c = CHR 0x22 then emit [Scalar (Str (rev acc))] (lex Between cs)
      else if c = CHR 0x5C then lex (InEscape acc) cs
      else if (of_char c :: nat) < 32 then None
      else lex (InString (c # acc)) cs)"
| "lex (InEscape acc) (c # cs) =
     (if c = CHR ''u'' then
        (case unicode_escape (take 4 cs) of
           Some d \<Rightarrow> lex (InString (d # acc)) (drop 4 cs)
         | None \<Rightarrow> None)
      else (case unescape c of Some d \<Rightarrow> lex (InString (d # acc)) cs | None \<Rightarrow> None))"
| "lex (InNumber negative ds) (c # cs) =
     (if is_digit c then lex (InNumber negative (c # ds)) cs
      else (case (number_token negative ds, after_number c) of
              (Some t, Some ts) \<Rightarrow> emit (t # ts) (lex Between cs)
            | _ \<Rightarrow> None))"

text \<open>
  The parser is a stack machine over the tokens. A frame is an array with the
  elements read so far, an object with the members read so far, or an object with
  the key whose value is being read. A key that comes twice keeps its first place
  and its last value, as a property of a JavaScript object does.
\<close>

datatype frame =
    Elems "jsvalue list"
  | Members "(string \<times> jsvalue) list"
  | Member "(string \<times> jsvalue) list" string

datatype expecting = AValue | AValueOrEnd | AKeyOrEnd | AKey | AColon | ACommaOrEnd | Finished jsvalue

definition after_value :: "jsvalue \<Rightarrow> frame list \<Rightarrow> (expecting \<times> frame list) option" where
  "after_value v fs =
     (case fs of
        [] \<Rightarrow> Some (Finished v, [])
      | Elems acc # fs' \<Rightarrow> Some (ACommaOrEnd, Elems (acc @ [v]) # fs')
      | Member acc k # fs' \<Rightarrow> Some (ACommaOrEnd, Members (AList.update k v acc) # fs')
      | Members acc # fs' \<Rightarrow> None)"

definition open_value :: "token \<Rightarrow> frame list \<Rightarrow> (expecting \<times> frame list) option" where
  "open_value t fs =
     (case t of
        Scalar v \<Rightarrow> after_value v fs
      | LBracket \<Rightarrow> Some (AValueOrEnd, Elems [] # fs)
      | LBrace \<Rightarrow> Some (AKeyOrEnd, Members [] # fs)
      | _ \<Rightarrow> None)"

definition close_array :: "frame list \<Rightarrow> (expecting \<times> frame list) option" where
  "close_array fs = (case fs of Elems acc # fs' \<Rightarrow> after_value (Arr acc) fs' | _ \<Rightarrow> None)"

definition close_object :: "frame list \<Rightarrow> (expecting \<times> frame list) option" where
  "close_object fs = (case fs of Members acc # fs' \<Rightarrow> after_value (Obj acc) fs' | _ \<Rightarrow> None)"

definition read_key :: "token \<Rightarrow> frame list \<Rightarrow> (expecting \<times> frame list) option" where
  "read_key t fs =
     (case (t, fs) of
        (Scalar (Str k), Members acc # fs') \<Rightarrow> Some (AColon, Member acc k # fs')
      | _ \<Rightarrow> None)"

definition step :: "expecting \<Rightarrow> frame list \<Rightarrow> token \<Rightarrow> (expecting \<times> frame list) option" where
  "step e fs t =
     (case e of
        AValue \<Rightarrow> open_value t fs
      | AValueOrEnd \<Rightarrow> if t = RBracket then close_array fs else open_value t fs
      | AKeyOrEnd \<Rightarrow> if t = RBrace then close_object fs else read_key t fs
      | AKey \<Rightarrow> read_key t fs
      | AColon \<Rightarrow> if t = Colon then Some (AValue, fs) else None
      | ACommaOrEnd \<Rightarrow>
          (case t of
             Comma \<Rightarrow> (case fs of
                         Elems acc # fs' \<Rightarrow> Some (AValue, fs)
                       | Members acc # fs' \<Rightarrow> Some (AKey, fs)
                       | _ \<Rightarrow> None)
           | RBracket \<Rightarrow> close_array fs
           | RBrace \<Rightarrow> close_object fs
           | _ \<Rightarrow> None)
      | Finished v \<Rightarrow> None)"

fun parse_tokens :: "expecting \<Rightarrow> frame list \<Rightarrow> token list \<Rightarrow> jsvalue option" where
  "parse_tokens e fs [] = (case e of Finished v \<Rightarrow> Some v | _ \<Rightarrow> None)"
| "parse_tokens e fs (t # ts) =
     (case step e fs t of None \<Rightarrow> None | Some (e', fs') \<Rightarrow> parse_tokens e' fs' ts)"

definition parse_text :: "string \<Rightarrow> jsvalue option" where
  "parse_text s = (case lex Between s of None \<Rightarrow> None | Some ts \<Rightarrow> parse_tokens AValue [] ts)"

text \<open>
  \<^verbatim>\<open>JSON.stringify\<close>. Inside an array \<^verbatim>\<open>undefined\<close> is written \<^verbatim>\<open>null\<close>, and a
  member whose value is \<^verbatim>\<open>undefined\<close> is left out; \<^verbatim>\<open>NaN\<close> is written \<^verbatim>\<open>null\<close>. At
  the top \<^verbatim>\<open>JSON.stringify(undefined)\<close> is not a string; \<open>set'\<close> never asks for it.
\<close>

fun nat_digits :: "nat \<Rightarrow> string" where
  "nat_digits n =
     (if n < 10 then [char_of (48 + n)] else nat_digits (n div 10) @ [char_of (48 + n mod 10)])"

definition int_string :: "int \<Rightarrow> string" where
  "int_string i = (if i < 0 then CHR ''-'' # nat_digits (nat (- i)) else nat_digits (nat i))"

definition hex_digit :: "nat \<Rightarrow> char" where
  "hex_digit n = (if n < 10 then char_of (48 + n) else char_of (87 + n))"

definition quote_char :: "char \<Rightarrow> string" where
  "quote_char c =
     (if c = CHR 0x22 then [CHR 0x5C, CHR 0x22]
      else if c = CHR 0x5C then [CHR 0x5C, CHR 0x5C]
      else if c = CHR 0x08 then [CHR 0x5C, CHR ''b'']
      else if c = CHR 0x0C then [CHR 0x5C, CHR ''f'']
      else if c = CHR 0x0A then [CHR 0x5C, CHR ''n'']
      else if c = CHR 0x0D then [CHR 0x5C, CHR ''r'']
      else if c = CHR 0x09 then [CHR 0x5C, CHR ''t'']
      else if (of_char c :: nat) < 32 then
        [CHR 0x5C, CHR ''u'', CHR ''0'', CHR ''0'',
         hex_digit ((of_char c :: nat) div 16), hex_digit ((of_char c :: nat) mod 16)]
      else [c])"

definition quote :: "string \<Rightarrow> string" where
  "quote s = CHR 0x22 # concat (map quote_char s) @ [CHR 0x22]"

fun join :: "string list \<Rightarrow> string" where
  "join [] = []"
| "join [s] = s"
| "join (s # t # ss) = s @ CHR '','' # join (t # ss)"

fun serialize :: "jsvalue \<Rightarrow> string" where
  "serialize Undefined = ''null''"
| "serialize Null = ''null''"
| "serialize (Bool b) = (if b then ''true'' else ''false'')"
| "serialize (Num NaN) = ''null''"
| "serialize (Num (Finite i)) = int_string i"
| "serialize (Str s) = quote s"
| "serialize (Arr vs) = CHR ''['' # join (map serialize vs) @ '']''"
| "serialize (Obj ms) =
     CHR ''{'' # join (map (\<lambda>m. quote (fst m) @ CHR '':'' # serialize (snd m))
                         (filter (\<lambda>m. snd m \<noteq> Undefined) ms)) @ ''}''"

text \<open>
  \<^verbatim>\<open>parseInt(v, 10)\<close> converts \<open>v\<close> to a string first, skips leading white space, reads
  an optional sign and then decimal digits as far as they go; with no digit the
  result is \<^verbatim>\<open>NaN\<close>.
\<close>

fun ToString :: "jsvalue \<Rightarrow> string" where
  "ToString Undefined = ''undefined''"
| "ToString Null = ''null''"
| "ToString (Bool b) = (if b then ''true'' else ''false'')"
| "ToString (Num NaN) = ''NaN''"
| "ToString (Num (Finite i)) = int_string i"
| "ToString (Str s) = s"
| "ToString (Arr vs) = join (map (\<lambda>v. if isUndefinedOrNull v then [] else ToString v) vs)"
| "ToString (Obj ms) = ''[object Object]''"

definition is_StrWhiteSpaceChar :: "char \<Rightarrow> bool" where
  "is_StrWhiteSpaceChar c \<longleftrightarrow> c \<in> set [CHR 0x09, CHR 0x0A, CHR 0x0B, CHR 0x0C, CHR 0x0D, CHR 0x20]"

definition parseInt_string :: "string \<Rightarrow> number" where
  "parseInt_string s =
     (let t = dropWhile is_StrWhiteSpaceChar s;
          negative = (case t of c # r \<Rightarrow> c = CHR ''-'' | [] \<Rightarrow> False);
          u = (case t of c # r \<Rightarrow> if c = CHR ''-'' \<or> c = CHR ''+'' then r else t | [] \<Rightarrow> t);
          ds = takeWhile is_digit u
      in if ds = [] then NaN
         else Finite (if negative then - int (digits_value ds) else int (digits_value ds)))"

definition ECMAScript :: builtins where
  "ECMAScript =
     \<lparr>JSON_parse = parse_text, JSON_stringify = serialize,
      parseInt = (\<lambda>v. parseInt_string (ToString v))\<rparr>"

section \<open>Sequences of calls\<close>

text \<open>
  A caller's mutations and the flushes that come due, one after the other. Each
  runs in one uninterrupted segment, as the three methods do between their
  suspension points.
\<close>

datatype call = Set string jsvalue | Delete string | FlushPending bool

fun perform :: "builtins \<Rightarrow> call \<Rightarrow> Storage \<Rightarrow> Storage" where
  "perform J (Set key v) st = snd (set' J key v st)"
| "perform J (Delete key) st = snd (delete key st)"
| "perform J (FlushPending ok) st = snd (flushPending ok st)"

fun run :: "builtins \<Rightarrow> call list \<Rightarrow> Storage \<Rightarrow> Storage" where
  "run J [] st = st"
| "run J (c # cs) st = run J cs (perform J c st)"

definition exclusivePending :: "Storage \<Rightarrow> bool" where
  "exclusivePending st \<longleftrightarrow> set (map fst (pendingInserts st)) \<inter> set (pendingDeletes st) = {}"

section \<open>Example states\<close>

text \<open>
  A storage for the namespace \<^verbatim>\<open>prefs\<close> with no local mirror, whose store holds nothing,
  once \<^verbatim>\<open>init\<close> has completed; and the same after \<^verbatim>\<open>set("theme", "dark")\<close>.
\<close>

definition prefs :: Storage where
  "prefs = snd (init ''prefs'' (Items []) (new_Storage None None ''prefs'' None))"

definition prefs_dark :: Storage where
  "prefs_dark = snd (set' ECMAScript ''theme'' (Str ''dark'') prefs)"

text \<open>
  The storage for \<^verbatim>\<open>prefs\<close> before \<^verbatim>\<open>init\<close> has completed, after
  \<^verbatim>\<open>set("theme", "dark")\<close>; and the storage \<open>prefs_dark\<close> closed and then
  initialised again, as a change of workspace does.
\<close>

definition unready :: Storage where
  "unready = snd (set' ECMAScript ''theme'' (Str ''dark'') (new_Storage None None ''prefs'' None))"

definition reopened :: Storage where
  "reopened = snd (init ''prefs'' (Items []) (snd (close True True prefs_dark)))"

text \<open>
  A storage whose store holds, under eight keys, the raw strings \<^verbatim>\<open>"true"\<close> (with
  its quotes, what \<^verbatim>\<open>set(k, 'true')\<close> writes), \<^verbatim>\<open>1\<close>, \<^verbatim>\<open>True\<close>, \<^verbatim>\<open>null\<close>,
  \<^verbatim>\<open>false\<close>, \<^verbatim>\<open>[]\<close>, \<^verbatim>\<open>{}\<close> and \<^verbatim>\<open>true\<close> (what \<^verbatim>\<open>set(k, true)\<close> writes).
\<close>

definition flags :: Storage where
  "flags =
     snd (init ''prefs''
       (Items [(''quoted'', CHR 0x22 # ''true'' @ [CHR 0x22]), (''one'', ''1''),
               (''capital'', ''True''), (''null'', ''null''), (''false'', ''false''),
               (''array'', ''[]''), (''object'', ''{}''), (''bare'', ''true'')])
       (new_Storage None None ''prefs'' None))"

section \<open>Properties\<close>

subsection \<open>Evaluating the examples\<close>

lemma stringify_dark:
  "JSON_stringify ECMAScript (Str ''dark'') = CHR 0x22 # ''dark'' @ [CHR 0x22]"
  by code_simp

lemma parse_dark:
  "JSON_parse ECMAScript (CHR 0x22 # ''dark'' @ [CHR 0x22]) = Some (Str ''dark'')"
  by code_simp

lemma stringify_true: "JSON_stringify ECMAScript (Bool True) = ''true''"
  by code_simp

lemma parse_true: "JSON_parse ECMAScript ''true'' = Some (Bool True)"
  by code_simp

lemma parse_abc: "JSON_parse ECMAScript ''abc'' = None"
  by code_simp

lemma parseInt_abc: "parseInt ECMAScript (Str ''abc'') = NaN"
  by code_simp

lemma parse_quoted_true:
  "JSON_parse ECMAScript (CHR 0x22 # ''true'' @ [CHR 0x22]) = Some (Str ''true'')"
  by code_simp

lemma parse_one: "JSON_parse ECMAScript ''1'' = Some (Num (Finite 1))"
  by code_simp

lemma parse_capital_true: "JSON_parse ECMAScript ''True'' = None"
  by code_simp

lemma parse_null: "JSON_parse ECMAScript ''null'' = Some Null"
  by code_simp

lemma parse_false: "JSON_parse ECMAScript ''false'' = Some (Bool False)"
  by code_simp

lemma parse_empty_array: "JSON_parse ECMAScript ''[]'' = Some (Arr [])"
  by code_simp

lemma parse_empty_object: "JSON_parse ECMAScript ''{}'' = Some (Obj [])"
  by code_simp

lemma cache_flags:
  "cache flags =
     [(''quoted'', CHR 0x22 # ''true'' @ [CHR 0x22]), (''one'', ''1''), (''capital'', ''True''),
      (''null'', ''null''), (''false'', ''false''), (''array'', ''[]''), (''object'', ''{}''),
      (''bare'', ''true'')]"
  by (simp add: flags_def init_def getData_def new_Storage_def jsonToMap_def assign_def)

lemma prefs_eq:
  "prefs = \<lparr>database = [DbInit None None, DbGetItems ''prefs''], workspace_uri = None,
      storageDirName = None, storageName = ''prefs'', browserLocalStroage = None,
      onDidChangeStorage = [], flushDelayer = None, state = Initialized, cache = [],
      pendingDeletes = [], pendingInserts = [], readyDeferred = True\<rparr>"
  by (simp add: prefs_def init_def getData_def new_Storage_def jsonToMap_def assign_def)

lemma prefs_dark_eq:
  "prefs_dark = \<lparr>database = [DbInit None None, DbGetItems ''prefs''], workspace_uri = None,
      storageDirName = None, storageName = ''prefs'', browserLocalStroage = None,
      onDidChangeStorage = [''theme''], flushDelayer = Some 200, state = Initialized,
      cache = [(''theme'', CHR 0x22 # ''dark'' @ [CHR 0x22])],
      pendingDeletes = [], pendingInserts = [(''theme'', CHR 0x22 # ''dark'' @ [CHR 0x22])],
      readyDeferred = True\<rparr>"
  unfolding prefs_dark_def prefs_eq
  by (simp add: set'_def Let_def isUndefinedOrNull_def stringify_dark trigger_def fire_def
      DEFAULT_FLUSH_DELAY_def)


subsection \<open>Single calls\<close>

lemma set'_cached:
  "\<not> isUndefinedOrNull v \<Longrightarrow> map_of (cache st) k = Some (JSON_stringify J v) \<Longrightarrow>
   set' J k v st = (Resolved, st)"
  by (simp add: set'_def)

lemma set'_changes:
  "state st \<noteq> Closed \<Longrightarrow> \<not> isUndefinedOrNull v \<Longrightarrow>
   map_of (cache st) k \<noteq> Some (JSON_stringify J v) \<Longrightarrow>
   set' J k v st =
     (Triggered,
      st\<lparr>cache := AList.update k (JSON_stringify J v) (cache st),
         pendingInserts := AList.update k (JSON_stringify J v) (pendingInserts st),
         pendingDeletes := removeAll k (pendingDeletes st),
         onDidChangeStorage := onDidChangeStorage st @ [k],
         flushDelayer := Some DEFAULT_FLUSH_DELAY\<rparr>)"
  by (simp add: set'_def Let_def trigger_def fire_def)

lemma set'_closed: "state st = Closed \<Longrightarrow> set' J k v st = (Resolved, st)"
  by (simp add: set'_def)

lemma delete_closed: "state st = Closed \<Longrightarrow> delete k st = (Resolved, st)"
  by (simp add: delete_def)

lemma delete_absent: "k \<notin> set (map fst (cache st)) \<Longrightarrow> delete k st = (Resolved, st)"
  by (simp add: delete_def)

lemma delete_present:
  "state st \<noteq> Closed \<Longrightarrow> k \<in> set (map fst (cache st)) \<Longrightarrow>
   delete k st =
     (Triggered,
      st\<lparr>cache := AList.delete k (cache st),
         pendingDeletes := (if k \<in> set (pendingDeletes st) then pendingDeletes st
                            else pendingDeletes st @ [k]),
         pendingInserts := AList.delete k (pendingInserts st),
         onDidChangeStorage := onDidChangeStorage st @ [k],
         flushDelayer := Some DEFAULT_FLUSH_DELAY\<rparr>)"
  by (simp add: delete_def trigger_def fire_def)

lemma get_absent:
  "map_of (cache st) k = None \<Longrightarrow>
   get J st k fb = (case fb of None \<Rightarrow> (Undefined, []) | Some s \<Rightarrow> (Str s, []))"
  by (simp add: get_def)

lemma syncMirror_fields:
  "database (syncMirror r st) = database st"
  "storageName (syncMirror r st) = storageName st"
  "state (syncMirror r st) = state st"
  "cache (syncMirror r st) = cache st"
  "pendingInserts (syncMirror r st) = pendingInserts st"
  "pendingDeletes (syncMirror r st) = pendingDeletes st"
  "readyDeferred (syncMirror r st) = readyDeferred st"
  "flushDelayer (syncMirror r st) = flushDelayer st"
  "onDidChangeStorage (syncMirror r st) = onDidChangeStorage st"
  by (simp_all add: syncMirror_def split: option.splits)

lemma flushPending_nothing:
  "readyDeferred st \<Longrightarrow> pendingInserts st = [] \<Longrightarrow> pendingDeletes st = [] \<Longrightarrow>
   flushPending ok st = (Fulfilled, st)"
  by (simp add: flushPending_def)

lemma flushPending_batch:
  "readyDeferred st \<Longrightarrow> \<not> (pendingInserts st = [] \<and> pendingDeletes st = []) \<Longrightarrow>
   flushPending ok st =
     database_updateItems ok (storageName st)
       \<lparr>insert' = mapToJson (pendingInserts st), delete' = pendingDeletes st\<rparr>
       ((syncMirror \<lparr>insert' = mapToJson (pendingInserts st), delete' = pendingDeletes st\<rparr> st)
          \<lparr>pendingDeletes := [], pendingInserts := []\<rparr>)"
  by (auto simp add: flushPending_def Let_def syncMirror_fields)

lemma flushPending_fields:
  "state (snd (flushPending ok st)) = state st"
  "cache (snd (flushPending ok st)) = cache st"
  "storageName (snd (flushPending ok st)) = storageName st"
  "readyDeferred (snd (flushPending ok st)) = readyDeferred st"
  "flushDelayer (snd (flushPending ok st)) = flushDelayer st"
  "onDidChangeStorage (snd (flushPending ok st)) = onDidChangeStorage st"
  by (simp_all add: flushPending_def Let_def database_updateItems_def syncMirror_fields)

lemma flushPending_settles:
  "readyDeferred st \<Longrightarrow> fst (flushPending ok st) \<noteq> Pending"
  by (simp add: flushPending_def Let_def database_updateItems_def)

lemma flushPending_database:
  "readyDeferred st \<Longrightarrow>
   database (snd (flushPending ok st)) =
     database st @
       (if pendingInserts st = [] \<and> pendingDeletes st = [] then []
        else [DbUpdateItems (storageName st)
               \<lparr>insert' = mapToJson (pendingInserts st), delete' = pendingDeletes st\<rparr>])"
  by (simp add: flushPending_def Let_def database_updateItems_def syncMirror_fields)

lemma close_ready:
  assumes "state st \<noteq> Closed" "readyDeferred st"
  shows "close fo co st =
           database_close co (snd (flushPending fo (st\<lparr>state := Closed, flushDelayer := None\<rparr>)))"
proof -
  have "fst (flushPending fo (st\<lparr>state := Closed, flushDelayer := None\<rparr>)) \<noteq> Pending"
    using assms(2) by (simp add: flushPending_settles)
  then show ?thesis
    using assms
    by (simp add: close_def Let_def trigger_def runScheduledFlush_def split_beta)
qed

lemma close_state: "state (snd (close fo co st)) = Closed"
  by (simp add: close_def Let_def trigger_def runScheduledFlush_def split_beta
      database_close_def flushPending_fields)






lemma init_fields:
  "pendingInserts (snd (init name answer st)) = pendingInserts st"
  "pendingDeletes (snd (init name answer st)) = pendingDeletes st"
  "storageName (snd (init name answer st)) = storageName st"
  by (simp_all add: init_def Let_def split: option.splits db_answer.splits)

lemma init_fulfilled:
  "fst (init name answer st) = Fulfilled \<Longrightarrow>
   state (snd (init name answer st)) = Initialized \<and> readyDeferred (snd (init name answer st))"
  by (simp add: init_def Let_def split: option.splits db_answer.splits)

subsection \<open>The pending collections along a run\<close>

lemma keys_delete: "fst ` set (AList.delete k al) = fst ` set al - {k}"
proof -
  have "set (map fst (AList.delete k al)) = set (removeAll k (map fst al))"
    by (simp only: delete_keys)
  then show ?thesis by simp
qed

lemma exclusive_delete: "exclusivePending st \<Longrightarrow> exclusivePending (snd (delete k st))"
  unfolding exclusivePending_def delete_def trigger_def fire_def
  by (auto simp add: keys_delete)

lemma exclusive_set': "exclusivePending st \<Longrightarrow> exclusivePending (snd (set' J k v st))"
proof (cases "state st \<noteq> Closed \<and> isUndefinedOrNull v")
  case True
  assume "exclusivePending st"
  then have "exclusivePending (snd (delete k st))"
    by (rule exclusive_delete)
  with True show ?thesis
    by (simp add: set'_def)
next
  case False
  assume "exclusivePending st"
  with False show ?thesis
    unfolding exclusivePending_def set'_def Let_def trigger_def fire_def
    by (auto simp add: dom_update)
qed

lemma exclusive_flushPending: "exclusivePending st \<Longrightarrow> exclusivePending (snd (flushPending ok st))"
  by (simp add: exclusivePending_def flushPending_def Let_def database_updateItems_def)

lemma exclusive_perform: "exclusivePending st \<Longrightarrow> exclusivePending (perform J c st)"
  by (cases c) (simp_all add: exclusive_set' exclusive_delete exclusive_flushPending)

lemma exclusive_run: "exclusivePending st \<Longrightarrow> exclusivePending (run J cs st)"
  by (induction cs arbitrary: st) (simp_all add: exclusive_perform)

lemma run_closed:
  "state st = Closed \<Longrightarrow> \<forall>c\<in>set cs. \<forall>ok. c \<noteq> FlushPending ok \<Longrightarrow> run J cs st = st"
proof (induction cs)
  case Nil
  then show ?case by simp
next
  case (Cons c cs)
  have "perform J c st = st"
    using Cons.prems by (cases c) (auto simp add: set'_closed delete_closed)
  with Cons show ?case by simp
qed

lemma perform_closed: "state st = Closed \<Longrightarrow> state (perform J c st) = Closed"
  by (cases c) (simp_all add: set'_closed delete_closed flushPending_fields)

lemma run_stays_closed: "state st = Closed \<Longrightarrow> state (run J cs st) = Closed"
  by (induction cs arbitrary: st) (simp_all add: perform_closed)

subsection \<open>Writing a value and reading it back\<close>

text \<open>
  C1. On an Initialized storage, for every key \<open>k\<close>: when \<open>v\<close> is neither null nor
  undefined and survives the round trip through \<^verbatim>\<open>JSON.stringify\<close> and
  \<^verbatim>\<open>JSON.parse\<close>, \<^verbatim>\<open>set(k, v)\<close> followed by \<^verbatim>\<open>get(k)\<close> returns \<open>v\<close>; when \<open>v\<close> is
  null or undefined, \<^verbatim>\<open>set(k, v)\<close> is \<^verbatim>\<open>delete(k)\<close>, and a following
  \<^verbatim>\<open>get(k, fb)\<close> returns \<open>fb\<close> and logs nothing.
\<close>

theorem set_get_roundtrip:
  assumes "state st = Initialized"
  shows "(\<not> isUndefinedOrNull v \<longrightarrow> JSON_parse J (JSON_stringify J v) = Some v \<longrightarrow>
            fst (get J (snd (set' J k v st)) k fb) = v)
       \<and> (isUndefinedOrNull v \<longrightarrow>
            set' J k v st = delete k st
          \<and> get J (snd (set' J k v st)) k fb = (case fb of None \<Rightarrow> Undefined | Some s \<Rightarrow> Str s, []))"
proof (intro conjI impI)
  assume v: "\<not> isUndefinedOrNull v" and rt: "JSON_parse J (JSON_stringify J v) = Some v"
  have "map_of (cache (snd (set' J k v st))) k = Some (JSON_stringify J v)"
    using assms v by (simp add: set'_def Let_def trigger_def fire_def update_conv')
  then show "fst (get J (snd (set' J k v st)) k fb) = v"
    using rt by (simp add: get_def)
next
  assume v: "isUndefinedOrNull v"
  show "set' J k v st = delete k st"
    using assms v by (simp add: set'_def)
next
  assume v: "isUndefinedOrNull v"
  have s: "set' J k v st = delete k st"
    using assms v by (simp add: set'_def)
  have "map_of (cache (snd (delete k st))) k = None"
    using assms
    by (simp add: delete_def trigger_def fire_def map_of_eq_None_iff delete_notin_dom)
  then show "get J (snd (set' J k v st)) k fb = (case fb of None \<Rightarrow> Undefined | Some s \<Rightarrow> Str s, [])"
    by (simp add: s get_def split: option.splits)
qed

theorem set_get_roundtrip_witness:
  "state (snd (init ''prefs'' (Items [(''theme'', ''true'')]) (new_Storage None None ''prefs'' None))) = Initialized
   \<and> \<not> isUndefinedOrNull (Str ''dark'')
   \<and> JSON_parse ECMAScript (JSON_stringify ECMAScript (Str ''dark'')) = Some (Str ''dark'')
   \<and> fst (get ECMAScript
        (snd (set' ECMAScript ''theme'' (Str ''dark'')
           (snd (init ''prefs'' (Items [(''theme'', ''true'')]) (new_Storage None None ''prefs'' None)))))
        ''theme'' None) = Str ''dark''
   \<and> isUndefinedOrNull Null
   \<and> get ECMAScript
        (snd (set' ECMAScript ''theme'' Null
           (snd (init ''prefs'' (Items [(''theme'', ''true'')]) (new_Storage None None ''prefs'' None)))))
        ''theme'' (Some ''light'') = (Str ''light'', [])"
proof -
  let ?s = "snd (init ''prefs'' (Items [(''theme'', ''true'')]) (new_Storage None None ''prefs'' None))"
  have i: "state ?s = Initialized"
    by (simp add: init_def getData_def new_Storage_def)
  have a: "\<not> isUndefinedOrNull (Str ''dark'')" and b: "isUndefinedOrNull Null"
    by (simp_all add: isUndefinedOrNull_def)
  have c: "JSON_parse ECMAScript (JSON_stringify ECMAScript (Str ''dark'')) = Some (Str ''dark'')"
    by code_simp
  have d: "fst (get ECMAScript (snd (set' ECMAScript ''theme'' (Str ''dark'') ?s)) ''theme'' None)
             = Str ''dark''"
    using set_get_roundtrip [OF i, of "Str ''dark''" ECMAScript "''theme''" None] a c by blast
  have "get ECMAScript (snd (set' ECMAScript ''theme'' Null ?s)) ''theme'' (Some ''light'')
          = (case Some ''light'' of None \<Rightarrow> Undefined | Some s \<Rightarrow> Str s, [])"
    using set_get_roundtrip [OF i, of Null ECMAScript "''theme''" "Some ''light''"] b by blast
  then have e: "get ECMAScript (snd (set' ECMAScript ''theme'' Null ?s)) ''theme'' (Some ''light'')
             = (Str ''light'', [])"
    by simp
  show ?thesis using i a b c d e by blast
qed

subsection \<open>The flush\<close>

text \<open>
  C2. Once the readiness signal is resolved: when both pending collections are empty,
  \<^verbatim>\<open>flushPending\<close> returns with the state as it was, so without a call of the store's
  \<^verbatim>\<open>updateItems\<close>. When they are not both empty, the store's \<^verbatim>\<open>updateItems\<close> is called
  on a state in which both collections are already empty, with the batch built from
  the collections as they were; and whether that write succeeds or fails, both
  collections are empty afterwards: a failed write puts nothing back.
\<close>

theorem flushPending_empty_or_cleared:
  assumes "readyDeferred st"
  shows "(pendingInserts st = [] \<and> pendingDeletes st = [] \<longrightarrow> flushPending ok st = (Fulfilled, st))
       \<and> (\<not> (pendingInserts st = [] \<and> pendingDeletes st = []) \<longrightarrow>
            flushPending ok st =
              database_updateItems ok (storageName st)
                \<lparr>insert' = mapToJson (pendingInserts st), delete' = pendingDeletes st\<rparr>
                ((syncMirror
                    \<lparr>insert' = mapToJson (pendingInserts st), delete' = pendingDeletes st\<rparr> st)
                 \<lparr>pendingDeletes := [], pendingInserts := []\<rparr>)
          \<and> fst (flushPending ok st) = (if ok then Fulfilled else Rejected)
          \<and> pendingInserts (snd (flushPending ok st)) = []
          \<and> pendingDeletes (snd (flushPending ok st)) = []
          \<and> database (snd (flushPending ok st)) =
              database st @ [DbUpdateItems (storageName st)
                \<lparr>insert' = mapToJson (pendingInserts st), delete' = pendingDeletes st\<rparr>])"
proof (intro conjI impI)
  assume "pendingInserts st = [] \<and> pendingDeletes st = []"
  then show "flushPending ok st = (Fulfilled, st)"
    using assms by (simp add: flushPending_nothing)
next
  let ?req = "\<lparr>insert' = mapToJson (pendingInserts st), delete' = pendingDeletes st\<rparr>"
  let ?st2 = "(syncMirror ?req st)\<lparr>pendingDeletes := [], pendingInserts := []\<rparr>"
  assume ne: "\<not> (pendingInserts st = [] \<and> pendingDeletes st = [])"
  have eq: "flushPending ok st = database_updateItems ok (storageName st) ?req ?st2"
    using assms ne by (rule flushPending_batch)
  show "flushPending ok st = database_updateItems ok (storageName st) ?req ?st2"
    by (rule eq)
  show "fst (flushPending ok st) = (if ok then Fulfilled else Rejected)"
    by (simp add: eq database_updateItems_def)
  show "pendingInserts (snd (flushPending ok st)) = []"
    by (simp add: eq database_updateItems_def)
  show "pendingDeletes (snd (flushPending ok st)) = []"
    by (simp add: eq database_updateItems_def)
  show "database (snd (flushPending ok st)) = database st @ [DbUpdateItems (storageName st) ?req]"
    by (simp add: eq database_updateItems_def syncMirror_fields)
qed

theorem flushPending_empty_or_cleared_witness:
  "readyDeferred prefs \<and> pendingInserts prefs = [] \<and> pendingDeletes prefs = []
   \<and> flushPending False prefs = (Fulfilled, prefs)
   \<and> readyDeferred prefs_dark
   \<and> pendingInserts prefs_dark = [(''theme'', CHR 0x22 # ''dark'' @ [CHR 0x22])]
   \<and> fst (flushPending False prefs_dark) = Rejected
   \<and> pendingInserts (snd (flushPending False prefs_dark)) = []
   \<and> pendingDeletes (snd (flushPending False prefs_dark)) = []
   \<and> database (snd (flushPending False prefs_dark))
       = [DbInit None None, DbGetItems ''prefs'',
          DbUpdateItems ''prefs''
            \<lparr>insert' = [(''theme'', CHR 0x22 # ''dark'' @ [CHR 0x22])], delete' = []\<rparr>]"
proof -
  have r0: "readyDeferred prefs" and p0: "pendingInserts prefs = []"
    and d0: "pendingDeletes prefs = []"
    unfolding prefs_eq by simp_all
  have r1: "readyDeferred prefs_dark"
    and p1: "pendingInserts prefs_dark = [(''theme'', CHR 0x22 # ''dark'' @ [CHR 0x22])]"
    and d1: "pendingDeletes prefs_dark = []"
    and db1: "database prefs_dark = [DbInit None None, DbGetItems ''prefs'']"
    and n1: "storageName prefs_dark = ''prefs''"
    unfolding prefs_dark_eq by simp_all
  have a: "flushPending False prefs = (Fulfilled, prefs)"
    using flushPending_empty_or_cleared [OF r0, of False] p0 d0 by blast
  have ne: "\<not> (pendingInserts prefs_dark = [] \<and> pendingDeletes prefs_dark = [])"
    using p1 by simp
  note t = flushPending_empty_or_cleared [OF r1, of False, THEN conjunct2, rule_format, OF ne]
  have "fst (flushPending False prefs_dark) = (if False then Fulfilled else Rejected)"
    using t by blast
  then have b: "fst (flushPending False prefs_dark) = Rejected"
    by simp
  have c: "pendingInserts (snd (flushPending False prefs_dark)) = []"
    and d: "pendingDeletes (snd (flushPending False prefs_dark)) = []"
    using t by blast+
  have "database (snd (flushPending False prefs_dark)) =
          database prefs_dark @ [DbUpdateItems (storageName prefs_dark)
            \<lparr>insert' = mapToJson (pendingInserts prefs_dark), delete' = pendingDeletes prefs_dark\<rparr>]"
    using t by blast
  then have e: "database (snd (flushPending False prefs_dark)) =
          [DbInit None None, DbGetItems ''prefs'',
           DbUpdateItems ''prefs''
             \<lparr>insert' = [(''theme'', CHR 0x22 # ''dark'' @ [CHR 0x22])], delete' = []\<rparr>]"
    by (simp add: p1 d1 db1 n1 mapToJson_def assign_def)
  show ?thesis
    using r0 p0 d0 a r1 p1 b c d e by blast
qed

subsection \<open>Closing\<close>




subsection \<open>Setting the value that is already there\<close>

text \<open>
  C4. For every key \<open>k\<close> and every \<open>v\<close> that is neither null nor undefined: when the
  serialisation of \<open>v\<close> is the string cached for \<open>k\<close>, \<^verbatim>\<open>set(k, v)\<close> returns a
  resolved promise and leaves the whole state as it was (cache, pending collections,
  fired events, flush schedule). A \<^verbatim>\<open>set\<close> that does change the cache fires the key
  once and schedules a flush; the same call made again right after it is such a
  no-op, so of two calls in a row only the first fires and triggers.
\<close>

theorem set_same_value_is_noop:
  assumes "\<not> isUndefinedOrNull v"
  shows "(map_of (cache st) k = Some (JSON_stringify J v) \<longrightarrow> set' J k v st = (Resolved, st))
       \<and> (state st \<noteq> Closed \<and> map_of (cache st) k \<noteq> Some (JSON_stringify J v) \<longrightarrow>
            fst (set' J k v st) = Triggered
          \<and> onDidChangeStorage (snd (set' J k v st)) = onDidChangeStorage st @ [k]
          \<and> flushDelayer (snd (set' J k v st)) = Some DEFAULT_FLUSH_DELAY)
       \<and> set' J k v (snd (set' J k v st)) = (Resolved, snd (set' J k v st))"
proof (intro conjI impI)
  assume "map_of (cache st) k = Some (JSON_stringify J v)"
  with assms show "set' J k v st = (Resolved, st)"
    by (rule set'_cached)
next
  assume c: "state st \<noteq> Closed \<and> map_of (cache st) k \<noteq> Some (JSON_stringify J v)"
  then have eq: "set' J k v st =
     (Triggered,
      st\<lparr>cache := AList.update k (JSON_stringify J v) (cache st),
         pendingInserts := AList.update k (JSON_stringify J v) (pendingInserts st),
         pendingDeletes := removeAll k (pendingDeletes st),
         onDidChangeStorage := onDidChangeStorage st @ [k],
         flushDelayer := Some DEFAULT_FLUSH_DELAY\<rparr>)"
    using assms by (simp add: set'_changes)
  show "fst (set' J k v st) = Triggered"
    and "onDidChangeStorage (snd (set' J k v st)) = onDidChangeStorage st @ [k]"
    and "flushDelayer (snd (set' J k v st)) = Some DEFAULT_FLUSH_DELAY"
    by (simp_all add: eq)
next
  show "set' J k v (snd (set' J k v st)) = (Resolved, snd (set' J k v st))"
  proof (cases "state st = Closed \<or> map_of (cache st) k = Some (JSON_stringify J v)")
    case True
    then have "set' J k v st = (Resolved, st)"
      using assms by (auto simp add: set'_closed set'_cached)
    then show ?thesis by simp
  next
    case False
    then have "map_of (cache (snd (set' J k v st))) k = Some (JSON_stringify J v)"
      using assms by (simp add: set'_changes update_conv')
    with assms show ?thesis
      by (rule set'_cached)
  qed
qed

theorem set_same_value_is_noop_witness:
  "\<not> isUndefinedOrNull (Str ''dark'')
   \<and> state prefs \<noteq> Closed
   \<and> map_of (cache prefs) ''theme'' \<noteq> Some (JSON_stringify ECMAScript (Str ''dark''))
   \<and> fst (set' ECMAScript ''theme'' (Str ''dark'') prefs) = Triggered
   \<and> onDidChangeStorage prefs_dark = [''theme'']
   \<and> flushDelayer prefs_dark = Some 200
   \<and> map_of (cache prefs_dark) ''theme'' = Some (JSON_stringify ECMAScript (Str ''dark''))
   \<and> set' ECMAScript ''theme'' (Str ''dark'') prefs_dark = (Resolved, prefs_dark)"
proof -
  have v: "\<not> isUndefinedOrNull (Str ''dark'')"
    by (simp add: isUndefinedOrNull_def)
  have s: "state prefs \<noteq> Closed"
    and c: "map_of (cache prefs) ''theme'' \<noteq> Some (JSON_stringify ECMAScript (Str ''dark''))"
    and e: "onDidChangeStorage prefs = []"
    unfolding prefs_eq by simp_all
  note t = set_same_value_is_noop [OF v, of _ "''theme''" ECMAScript]
  have "fst (set' ECMAScript ''theme'' (Str ''dark'') prefs) = Triggered
      \<and> onDidChangeStorage (snd (set' ECMAScript ''theme'' (Str ''dark'') prefs))
          = onDidChangeStorage prefs @ [''theme'']
      \<and> flushDelayer (snd (set' ECMAScript ''theme'' (Str ''dark'') prefs))
          = Some DEFAULT_FLUSH_DELAY"
    using t [of prefs] s c by blast
  then have a: "fst (set' ECMAScript ''theme'' (Str ''dark'') prefs) = Triggered"
    and b: "onDidChangeStorage prefs_dark = [''theme'']"
    and d: "flushDelayer prefs_dark = Some 200"
    by (simp_all add: prefs_dark_def e DEFAULT_FLUSH_DELAY_def)
  have m: "map_of (cache prefs_dark) ''theme'' = Some (JSON_stringify ECMAScript (Str ''dark''))"
    unfolding prefs_dark_eq by (simp add: stringify_dark)
  have n: "set' ECMAScript ''theme'' (Str ''dark'') prefs_dark = (Resolved, prefs_dark)"
    using t [of prefs_dark] m by blast
  show ?thesis
    using v s c a b d m n by blast
qed

subsection \<open>Mutations on a closed storage and deletes of absent keys\<close>

text \<open>
  C5, as amended. Once \<^verbatim>\<open>close\<close> has been called, and for as long as no \<^verbatim>\<open>init\<close>
  completes afterwards, the state is Closed: it is Closed right after \<^verbatim>\<open>close\<close>,
  whether \<^verbatim>\<open>close\<close> has settled or is suspended, and every sequence of \<^verbatim>\<open>set\<close>,
  \<^verbatim>\<open>delete\<close> and flushes leaves it Closed. In a Closed state \<^verbatim>\<open>set(k, v)\<close> and
  \<^verbatim>\<open>delete(k)\<close> return a resolved promise and leave the whole state as it was, so no
  event fires and neither the cache nor a pending collection changes; the same
  holds for every sequence of such calls. \<^verbatim>\<open>delete(k)\<close> of a key that is not in the
  cache returns a resolved promise and leaves the state as it was, whatever the
  state is.
\<close>

theorem mutations_after_close_are_noops:
  "state (snd (close flush_ok close_ok st)) = Closed
   \<and> state (run J cs (snd (close flush_ok close_ok st))) = Closed
   \<and> set' J k v (snd (close flush_ok close_ok st)) = (Resolved, snd (close flush_ok close_ok st))
   \<and> delete k (snd (close flush_ok close_ok st)) = (Resolved, snd (close flush_ok close_ok st))
   \<and> ((\<forall>c\<in>set cs. \<forall>ok. c \<noteq> FlushPending ok) \<longrightarrow>
        run J cs (snd (close flush_ok close_ok st)) = snd (close flush_ok close_ok st))
   \<and> (state st = Closed \<longrightarrow> set' J k v st = (Resolved, st) \<and> delete k st = (Resolved, st))
   \<and> (k \<notin> set (map fst (cache st)) \<longrightarrow> delete k st = (Resolved, st))"
  by (simp add: set'_closed delete_closed delete_absent close_state run_closed run_stays_closed)

theorem mutations_after_close_are_noops_witness:
  "state (snd (close True True prefs_dark)) = Closed
   \<and> state (run ECMAScript
        [Set ''theme'' (Str ''light''), FlushPending True, Delete ''theme'']
        (snd (close True True prefs_dark))) = Closed
   \<and> set' ECMAScript ''theme'' (Str ''light'') (snd (close True True prefs_dark))
       = (Resolved, snd (close True True prefs_dark))
   \<and> delete ''theme'' (snd (close True True prefs_dark))
       = (Resolved, snd (close True True prefs_dark))
   \<and> run ECMAScript [Set ''theme'' (Str ''light''), Delete ''theme'', Set ''font'' (Num (Finite 12))]
        (snd (close True True prefs_dark)) = snd (close True True prefs_dark)
   \<and> state (snd (close True True unready)) = Closed
   \<and> set' ECMAScript ''theme'' (Str ''light'') (snd (close True True unready))
       = (Resolved, snd (close True True unready))
   \<and> ''font'' \<notin> set (map fst (cache prefs_dark))
   \<and> delete ''font'' prefs_dark = (Resolved, prefs_dark)"
proof -
  have b: "''font'' \<notin> set (map fst (cache prefs_dark))"
    unfolding prefs_dark_eq by simp
  have c: "\<forall>c\<in>set [Set ''theme'' (Str ''light''), Delete ''theme'', Set ''font'' (Num (Finite 12))].
             \<forall>ok. c \<noteq> FlushPending ok"
    by simp
  note t = mutations_after_close_are_noops
  show ?thesis
    using b c
      t [of True True prefs_dark ECMAScript
           "[Set ''theme'' (Str ''light''), Delete ''theme'', Set ''font'' (Num (Finite 12))]"
           "''theme''" "Str ''light''"]
      t [of True True prefs_dark ECMAScript
           "[Set ''theme'' (Str ''light''), FlushPending True, Delete ''theme'']"
           "''font''" Null]
      t [of True True unready ECMAScript "[]" "''theme''" "Str ''light''"]
    by blast
qed

text \<open>
  The claim as it was stated, "after \<^verbatim>\<open>close\<close> every subsequent \<^verbatim>\<open>set\<close> is a no-op",
  fails once an \<^verbatim>\<open>init\<close> has completed after the \<^verbatim>\<open>close\<close>, as on a change of
  workspace: line 85 sets the state to Initialized whatever it was, and \<^verbatim>\<open>set\<close> then
  changes the cache, fires the key and schedules a flush.
\<close>

theorem set_after_close_and_init_counterexample:
  "state (snd (close True True prefs_dark)) = Closed
   \<and> state reopened = Initialized
   \<and> cache reopened = []
   \<and> fst (set' ECMAScript ''theme'' (Str ''dark'') reopened) = Triggered
   \<and> cache (snd (set' ECMAScript ''theme'' (Str ''dark'') reopened))
       = [(''theme'', CHR 0x22 # ''dark'' @ [CHR 0x22])]
   \<and> pendingInserts (snd (set' ECMAScript ''theme'' (Str ''dark'') reopened))
       = [(''theme'', CHR 0x22 # ''dark'' @ [CHR 0x22])]
   \<and> onDidChangeStorage (snd (set' ECMAScript ''theme'' (Str ''dark'') reopened))
       = onDidChangeStorage reopened @ [''theme'']
   \<and> set' ECMAScript ''theme'' (Str ''dark'') reopened \<noteq> (Resolved, reopened)"
proof -
  have closed: "snd (close True True prefs_dark) =
     \<lparr>database = [DbInit None None, DbGetItems ''prefs'',
        DbUpdateItems ''prefs''
          \<lparr>insert' = [(''theme'', CHR 0x22 # ''dark'' @ [CHR 0x22])], delete' = []\<rparr>,
        DbClose [(''theme'', CHR 0x22 # ''dark'' @ [CHR 0x22])]],
      workspace_uri = None, storageDirName = None, storageName = ''prefs'',
      browserLocalStroage = None, onDidChangeStorage = [''theme''], flushDelayer = None,
      state = Closed, cache = [(''theme'', CHR 0x22 # ''dark'' @ [CHR 0x22])],
      pendingDeletes = [], pendingInserts = [], readyDeferred = True\<rparr>"
    unfolding prefs_dark_eq
    by (simp add: close_def Let_def trigger_def runScheduledFlush_def flushPending_def
        syncMirror_def database_updateItems_def database_close_def mapToJson_def assign_def)
  have a: "state (snd (close True True prefs_dark)) = Closed"
    by (simp add: closed)
  have r: "reopened =
     \<lparr>database = [DbInit None None, DbGetItems ''prefs'',
        DbUpdateItems ''prefs''
          \<lparr>insert' = [(''theme'', CHR 0x22 # ''dark'' @ [CHR 0x22])], delete' = []\<rparr>,
        DbClose [(''theme'', CHR 0x22 # ''dark'' @ [CHR 0x22])],
        DbInit None None, DbGetItems ''prefs''],
      workspace_uri = None, storageDirName = None, storageName = ''prefs'',
      browserLocalStroage = None, onDidChangeStorage = [''theme''], flushDelayer = None,
      state = Initialized, cache = [], pendingDeletes = [], pendingInserts = [],
      readyDeferred = True\<rparr>"
    unfolding reopened_def closed
    by (simp add: init_def getData_def jsonToMap_def assign_def)
  have s: "state reopened = Initialized" and c: "cache reopened = []"
    by (simp_all add: r)
  have e: "set' ECMAScript ''theme'' (Str ''dark'') reopened =
     (Triggered,
      reopened\<lparr>cache := [(''theme'', CHR 0x22 # ''dark'' @ [CHR 0x22])],
         pendingInserts := [(''theme'', CHR 0x22 # ''dark'' @ [CHR 0x22])],
         pendingDeletes := [],
         onDidChangeStorage := onDidChangeStorage reopened @ [''theme''],
         flushDelayer := Some 200\<rparr>)"
    unfolding r
    by (simp add: set'_def Let_def isUndefinedOrNull_def stringify_dark trigger_def fire_def
        DEFAULT_FLUSH_DELAY_def)
  show ?thesis
    using a s c by (simp add: e)
qed

subsection \<open>Reading a boolean\<close>

text \<open>
  C6, as amended. \<^verbatim>\<open>getBoolean(k, fb)\<close> compares the value that \<^verbatim>\<open>get(k)\<close> returns,
  not the raw cached string. A missing key yields \<open>fb\<close>, and so does a cached string
  that parses to JSON null. Any other cached string that does not parse to the
  boolean true yields true exactly when it parses to the JSON string \<^verbatim>\<open>true\<close>, as
  the raw text \<^verbatim>\<open>"true"\<close> with its quotes does, and false otherwise: a cached string
  that parses to another string, to a number such as \<^verbatim>\<open>1\<close>, to \<^verbatim>\<open>false\<close>, to an array
  or to an object yields false, and one that is not JSON, such as \<^verbatim>\<open>True\<close>, is
  logged and compared as it is, which yields false. Nothing is said of a cached
  string that parses to the boolean true.
\<close>

theorem getBoolean_compares_parsed_value:
  "(map_of (cache st) k = None \<longrightarrow> getBoolean J st k fb = (fb, []))
   \<and> (map_of (cache st) k = Some raw \<longrightarrow>
        (JSON_parse J raw = Some v \<and> v \<noteq> Bool True \<longrightarrow>
           getBoolean J st k fb =
             (if isUndefinedOrNull v then fb else Some (v = Str ''true''), []))
      \<and> (JSON_parse J raw = Some Null \<longrightarrow> getBoolean J st k fb = (fb, []))
      \<and> (JSON_parse J raw = Some (Str s) \<longrightarrow> getBoolean J st k fb = (Some (s = ''true''), []))
      \<and> (JSON_parse J raw = Some (Num n) \<longrightarrow> getBoolean J st k fb = (Some False, []))
      \<and> (JSON_parse J raw = Some (Bool False) \<longrightarrow> getBoolean J st k fb = (Some False, []))
      \<and> (JSON_parse J raw = Some (Arr xs) \<longrightarrow> getBoolean J st k fb = (Some False, []))
      \<and> (JSON_parse J raw = Some (Obj ms) \<longrightarrow> getBoolean J st k fb = (Some False, []))
      \<and> (JSON_parse J raw = None \<longrightarrow> getBoolean J st k fb = (Some (raw = ''true''), [raw])))
   \<and> (map_of (cache st) k = Some (CHR 0x22 # ''true'' @ [CHR 0x22]) \<longrightarrow>
        getBoolean ECMAScript st k fb = (Some True, []))
   \<and> (map_of (cache st) k = Some ''1'' \<longrightarrow> getBoolean ECMAScript st k fb = (Some False, []))
   \<and> (map_of (cache st) k = Some ''True'' \<longrightarrow>
        getBoolean ECMAScript st k fb = (Some False, [''True'']))
   \<and> (map_of (cache st) k = Some ''false'' \<longrightarrow>
        getBoolean ECMAScript st k fb = (Some False, []))
   \<and> (map_of (cache st) k = Some ''[]'' \<longrightarrow> getBoolean ECMAScript st k fb = (Some False, []))
   \<and> (map_of (cache st) k = Some ''{}'' \<longrightarrow> getBoolean ECMAScript st k fb = (Some False, []))
   \<and> (map_of (cache st) k = Some ''null'' \<longrightarrow> getBoolean ECMAScript st k fb = (fb, []))"
proof -
  have general: "getBoolean J' st k fb =
     (case map_of (cache st) k of
        None \<Rightarrow> (fb, [])
      | Some r \<Rightarrow>
          (case JSON_parse J' r of
             None \<Rightarrow> (Some (r = ''true''), [r])
           | Some v \<Rightarrow> (if isUndefinedOrNull v then fb else Some (v = Str ''true''), [])))" for J'
    by (simp add: getBoolean_def get_def isUndefinedOrNull_def split: option.splits)
  have q: "JSON_parse ECMAScript [CHR 0x22, CHR ''t'', CHR ''r'', CHR ''u'', CHR ''e'', CHR 0x22]
             = Some (Str ''true'')"
    using parse_quoted_true by simp
  show ?thesis
    by (simp add: general isUndefinedOrNull_def q parse_one parse_capital_true parse_false
        parse_empty_array parse_empty_object parse_null)
qed

theorem getBoolean_compares_parsed_value_witness:
  "map_of (cache flags) ''quoted'' = Some (CHR 0x22 # ''true'' @ [CHR 0x22])
   \<and> getBoolean ECMAScript flags ''quoted'' (Some False) = (Some True, [])
   \<and> map_of (cache flags) ''one'' = Some ''1''
   \<and> getBoolean ECMAScript flags ''one'' (Some True) = (Some False, [])
   \<and> map_of (cache flags) ''capital'' = Some ''True''
   \<and> getBoolean ECMAScript flags ''capital'' (Some True) = (Some False, [''True''])
   \<and> map_of (cache flags) ''null'' = Some ''null''
   \<and> getBoolean ECMAScript flags ''null'' (Some True) = (Some True, [])
   \<and> map_of (cache flags) ''false'' = Some ''false''
   \<and> getBoolean ECMAScript flags ''false'' (Some True) = (Some False, [])
   \<and> map_of (cache flags) ''array'' = Some ''[]''
   \<and> JSON_parse ECMAScript ''[]'' = Some (Arr []) \<and> Arr [] \<noteq> Bool True
   \<and> getBoolean ECMAScript flags ''array'' (Some True) = (Some False, [])
   \<and> map_of (cache flags) ''object'' = Some ''{}''
   \<and> getBoolean ECMAScript flags ''object'' (Some True) = (Some False, [])
   \<and> map_of (cache flags) ''missing'' = None
   \<and> getBoolean ECMAScript flags ''missing'' (Some True) = (Some True, [])"
proof -
  have a: "map_of (cache flags) ''quoted'' = Some (CHR 0x22 # ''true'' @ [CHR 0x22])"
    and b: "map_of (cache flags) ''one'' = Some ''1''"
    and c: "map_of (cache flags) ''capital'' = Some ''True''"
    and d: "map_of (cache flags) ''null'' = Some ''null''"
    and f: "map_of (cache flags) ''false'' = Some ''false''"
    and g: "map_of (cache flags) ''array'' = Some ''[]''"
    and h: "map_of (cache flags) ''object'' = Some ''{}''"
    and e: "map_of (cache flags) ''missing'' = None"
    by (simp_all add: cache_flags)
  note t = getBoolean_compares_parsed_value
  have a': "getBoolean ECMAScript flags ''quoted'' (Some False) = (Some True, [])"
    using t [of flags "''quoted''" ECMAScript "Some False"] a by blast
  have b': "getBoolean ECMAScript flags ''one'' (Some True) = (Some False, [])"
    using t [of flags "''one''" ECMAScript "Some True"] b by blast
  have c': "getBoolean ECMAScript flags ''capital'' (Some True) = (Some False, [''True''])"
    using t [of flags "''capital''" ECMAScript "Some True"] c by blast
  have d': "getBoolean ECMAScript flags ''null'' (Some True) = (Some True, [])"
    using t [of flags "''null''" ECMAScript "Some True"] d by blast
  have f': "getBoolean ECMAScript flags ''false'' (Some True) = (Some False, [])"
    using t [of flags "''false''" ECMAScript "Some True"] f by blast
  have n: "Arr [] \<noteq> Bool True"
    by simp
  have "getBoolean ECMAScript flags ''array'' (Some True) =
          (if isUndefinedOrNull (Arr []) then Some True else Some (Arr [] = Str ''true''), [])"
    using t [of flags "''array''" ECMAScript "Some True" "''[]''" "Arr []"] g parse_empty_array n
    by blast
  then have g': "getBoolean ECMAScript flags ''array'' (Some True) = (Some False, [])"
    by (simp add: isUndefinedOrNull_def)
  have h': "getBoolean ECMAScript flags ''object'' (Some True) = (Some False, [])"
    using t [of flags "''object''" ECMAScript "Some True"] h by blast
  have e': "getBoolean ECMAScript flags ''missing'' (Some True) = (Some True, [])"
    using t [of flags "''missing''" ECMAScript "Some True"] e by blast
  show ?thesis
    using a a' b b' c c' d d' f f' g parse_empty_array n g' h h' e e' by blast
qed

text \<open>
  The claim as it was stated, "true exactly when the raw cached string is
  \<^verbatim>\<open>true\<close>, false for any other cached string", fails on the raw string
  \<^verbatim>\<open>"true"\<close>: it is not the string \<^verbatim>\<open>true\<close>, and \<^verbatim>\<open>getBoolean\<close> returns true for
  it. It fails on the raw string \<^verbatim>\<open>null\<close> as well, for which \<^verbatim>\<open>getBoolean\<close>
  returns the fallback, here true.
\<close>

theorem getBoolean_raw_string_counterexample:
  "map_of (cache flags) ''quoted'' \<noteq> Some ''true''
   \<and> getBoolean ECMAScript flags ''quoted'' (Some False) = (Some True, [])
   \<and> \<not> (fst (getBoolean ECMAScript flags ''quoted'' (Some False)) = Some True
          \<longleftrightarrow> map_of (cache flags) ''quoted'' = Some ''true'')
   \<and> map_of (cache flags) ''null'' = Some ''null''
   \<and> getBoolean ECMAScript flags ''null'' (Some True) = (Some True, [])"
proof -
  have q: "JSON_parse ECMAScript [CHR 0x22, CHR ''t'', CHR ''r'', CHR ''u'', CHR ''e'', CHR 0x22]
             = Some (Str ''true'')"
    using parse_quoted_true by simp
  show ?thesis
    by (simp add: cache_flags getBoolean_def get_def isUndefinedOrNull_def q parse_null)
qed

text \<open>
  What the amended claim leaves out: \<^verbatim>\<open>set(k, true)\<close> caches the raw string
  \<^verbatim>\<open>true\<close>, \<^verbatim>\<open>get\<close> parses it to the boolean, and the boolean is not strictly equal
  to the string \<^verbatim>\<open>'true'\<close>, so \<^verbatim>\<open>getBoolean\<close> answers false for a boolean that was
  stored as true.
\<close>

lemma getBoolean_after_set_true:
  "cache (snd (set' ECMAScript ''flag'' (Bool True) prefs)) = [(''flag'', ''true'')]
   \<and> get ECMAScript (snd (set' ECMAScript ''flag'' (Bool True) prefs)) ''flag'' None
       = (Bool True, [])
   \<and> getBoolean ECMAScript (snd (set' ECMAScript ''flag'' (Bool True) prefs)) ''flag'' (Some False)
       = (Some False, [])
   \<and> getBoolean ECMAScript flags ''bare'' (Some False) = (Some False, [])"
proof -
  have c: "cache (snd (set' ECMAScript ''flag'' (Bool True) prefs)) = [(''flag'', ''true'')]"
    unfolding prefs_eq
    by (simp add: set'_def Let_def isUndefinedOrNull_def stringify_true trigger_def fire_def)
  have g: "get ECMAScript (snd (set' ECMAScript ''flag'' (Bool True) prefs)) ''flag'' None
             = (Bool True, [])"
    by (simp add: get_def c parse_true)
  have b: "getBoolean ECMAScript flags ''bare'' (Some False) = (Some False, [])"
    by (simp add: cache_flags getBoolean_def get_def parse_true isUndefinedOrNull_def)
  have f: "getBoolean ECMAScript (snd (set' ECMAScript ''flag'' (Bool True) prefs)) ''flag''
             (Some False) = (Some False, [])"
    by (simp add: g getBoolean_def isUndefinedOrNull_def)
  show ?thesis
    using c g f b by blast
qed

subsection \<open>Reading a string that is not JSON\<close>

text \<open>
  C7. For every key whose cached raw string \<^verbatim>\<open>JSON.parse\<close> rejects, \<^verbatim>\<open>get(k, fb)\<close>
  logs the raw string and returns it, whatever \<open>fb\<close> is, and \<^verbatim>\<open>getNumber(k, fb)\<close>
  returns \<^verbatim>\<open>parseInt\<close> of it; for the cached raw string \<^verbatim>\<open>abc\<close> that is \<^verbatim>\<open>NaN\<close>.
\<close>

theorem get_unparsable_returns_raw:
  "(map_of (cache st) k = Some raw \<and> JSON_parse J raw = None \<longrightarrow>
      get J st k fb = (Str raw, [raw])
    \<and> getNumber J st k nfb = (Some (parseInt J (Str raw)), [raw]))
   \<and> (map_of (cache st) k = Some ''abc'' \<longrightarrow>
      get ECMAScript st k fb = (Str ''abc'', [''abc''])
    \<and> getNumber ECMAScript st k nfb = (Some NaN, [''abc'']))"
  by (simp add: get_def getNumber_def isUndefinedOrNull_def parse_abc parseInt_abc)

theorem get_unparsable_returns_raw_witness:
  "map_of (cache (snd (init ''prefs'' (Items [(''n'', ''abc'')]) (new_Storage None None ''prefs'' None))))
     ''n'' = Some ''abc''
   \<and> JSON_parse ECMAScript ''abc'' = None
   \<and> get ECMAScript (snd (init ''prefs'' (Items [(''n'', ''abc'')]) (new_Storage None None ''prefs'' None)))
       ''n'' (Some ''0'') = (Str ''abc'', [''abc''])
   \<and> getNumber ECMAScript
       (snd (init ''prefs'' (Items [(''n'', ''abc'')]) (new_Storage None None ''prefs'' None)))
       ''n'' (Some (Finite 0)) = (Some NaN, [''abc''])"
proof -
  let ?s = "snd (init ''prefs'' (Items [(''n'', ''abc'')]) (new_Storage None None ''prefs'' None))"
  have c: "map_of (cache ?s) ''n'' = Some ''abc''"
    by (simp add: init_def getData_def new_Storage_def jsonToMap_def assign_def)
  have p: "JSON_parse ECMAScript ''abc'' = None"
    by code_simp
  show ?thesis
    using c p get_unparsable_returns_raw [of ?s "''n''" "''abc''" ECMAScript "Some ''0''" "Some (Finite 0)"]
    by blast
qed

subsection \<open>The theme scenario\<close>

text \<open>
  C8. Namespace \<^verbatim>\<open>prefs\<close>, no local mirror, whatever the store holds:
  after \<^verbatim>\<open>set("theme", "dark")\<close>, \<^verbatim>\<open>get("theme")\<close> returns \<^verbatim>\<open>"dark"\<close>; the second
  \<^verbatim>\<open>set("theme", "dark")\<close> changes nothing, so fires no event; after
  \<^verbatim>\<open>delete("theme")\<close>, \<^verbatim>\<open>get("theme", "light")\<close> returns \<^verbatim>\<open>"light"\<close>; after
  \<^verbatim>\<open>close()\<close> the store has received, after \<^verbatim>\<open>init\<close> and \<^verbatim>\<open>getItems\<close>, exactly one
  \<^verbatim>\<open>updateItems\<close>, with an empty \<^verbatim>\<open>insert\<close> and \<^verbatim>\<open>delete\<close> equal to
  \<^verbatim>\<open>["theme"]\<close>, and then \<^verbatim>\<open>close\<close> with a snapshot that has no key \<^verbatim>\<open>theme\<close>.
  No scheduled flush comes due between the calls.
\<close>

theorem theme_scenario:
  "(let s0 = snd (init ''prefs'' (Items items) (new_Storage uri dir ''prefs'' None));
        s1 = snd (set' ECMAScript ''theme'' (Str ''dark'') s0);
        s2 = snd (set' ECMAScript ''theme'' (Str ''dark'') s1);
        s3 = snd (delete ''theme'' s2);
        s4 = snd (close flush_ok close_ok s3)
    in fst (get ECMAScript s1 ''theme'' None) = Str ''dark''
     \<and> set' ECMAScript ''theme'' (Str ''dark'') s1 = (Resolved, s1)
     \<and> onDidChangeStorage s2 = onDidChangeStorage s1
     \<and> fst (get ECMAScript s3 ''theme'' (Some ''light'')) = Str ''light''
     \<and> database s4 =
         [DbInit dir uri, DbGetItems ''prefs'',
          DbUpdateItems ''prefs'' \<lparr>insert' = [], delete' = [''theme'']\<rparr>,
          DbClose (cache s4)]
     \<and> ''theme'' \<notin> set (map fst (cache s4)))"
proof -
  define dq where "dq = CHR 0x22 # ''dark'' @ [CHR 0x22]"
  define s0 where "s0 = snd (init ''prefs'' (Items items) (new_Storage uri dir ''prefs'' None))"
  define s1 where "s1 = snd (set' ECMAScript ''theme'' (Str ''dark'') s0)"
  define s3 where "s3 = snd (delete ''theme'' s1)"
  define s4 where "s4 = snd (close flush_ok close_ok s3)"
  have v: "\<not> isUndefinedOrNull (Str ''dark'')"
    by (simp add: isUndefinedOrNull_def)
  have sd: "JSON_stringify ECMAScript (Str ''dark'') = dq"
    by (simp add: dq_def stringify_dark)
  have s0: "s0 = \<lparr>database = [DbInit dir uri, DbGetItems ''prefs''], workspace_uri = uri,
      storageDirName = dir, storageName = ''prefs'', browserLocalStroage = None,
      onDidChangeStorage = [], flushDelayer = None, state = Initialized, cache = jsonToMap items,
      pendingDeletes = [], pendingInserts = [], readyDeferred = True\<rparr>"
    by (simp add: s0_def init_def getData_def new_Storage_def)
  have c1: "map_of (cache s1) ''theme'' = Some dq"
  proof (cases "map_of (cache s0) ''theme'' = Some dq")
    case True
    then have "set' ECMAScript ''theme'' (Str ''dark'') s0 = (Resolved, s0)"
      using v sd by (simp add: set'_cached)
    with True show ?thesis by (simp add: s1_def)
  next
    case False
    then show ?thesis
      using v sd unfolding s1_def s0 by (simp add: set'_changes update_conv')
  qed
  have f1: "state s1 = Initialized \<and> readyDeferred s1 \<and> database s1 = [DbInit dir uri, DbGetItems ''prefs'']
      \<and> storageName s1 = ''prefs'' \<and> pendingDeletes s1 = []
      \<and> AList.delete ''theme'' (pendingInserts s1) = []"
  proof (cases "map_of (cache s0) ''theme'' = Some dq")
    case True
    then have "set' ECMAScript ''theme'' (Str ''dark'') s0 = (Resolved, s0)"
      using v sd by (simp add: set'_cached)
    then have "s1 = s0" by (simp add: s1_def)
    then show ?thesis by (simp add: s0)
  next
    case False
    then show ?thesis
      using v sd unfolding s1_def s0 by (simp add: set'_changes)
  qed
  have n2: "set' ECMAScript ''theme'' (Str ''dark'') s1 = (Resolved, s1)"
    using v c1 sd by (simp add: set'_cached)
  have pd: "JSON_parse ECMAScript dq = Some (Str ''dark'')"
    using parse_dark by (simp add: dq_def)
  have g1: "fst (get ECMAScript s1 ''theme'' None) = Str ''dark''"
    using c1 pd by (simp add: get_def)
  have k1: "''theme'' \<in> set (map fst (cache s1))"
    using c1 by (metis map_of_eq_None_iff option.distinct(1) set_map)
  have s3: "s3 = s1\<lparr>cache := AList.delete ''theme'' (cache s1), pendingDeletes := [''theme''],
      pendingInserts := [], onDidChangeStorage := onDidChangeStorage s1 @ [''theme''],
      flushDelayer := Some DEFAULT_FLUSH_DELAY\<rparr>"
    using f1 k1 by (simp add: s3_def delete_present)
  have c3: "map_of (cache s3) ''theme'' = None"
    by (simp add: s3 delete_conv')
  have g3: "fst (get ECMAScript s3 ''theme'' (Some ''light'')) = Str ''light''"
    using c3 by (simp add: get_absent)
  have r3: "readyDeferred s3" and st3: "state s3 \<noteq> Closed"
    using f1 by (simp_all add: s3)
  have "s4 = snd (database_close close_ok
          (snd (flushPending flush_ok (s3\<lparr>state := Closed, flushDelayer := None\<rparr>))))"
    using st3 r3 by (simp add: s4_def close_ready)
  then have c4: "cache s4 = cache s3"
    and db4: "database s4 =
      database (snd (flushPending flush_ok (s3\<lparr>state := Closed, flushDelayer := None\<rparr>)))
      @ [DbClose (cache s3)]"
    by (simp_all add: database_close_def flushPending_fields)
  have "database (snd (flushPending flush_ok (s3\<lparr>state := Closed, flushDelayer := None\<rparr>)))
      = [DbInit dir uri, DbGetItems ''prefs'',
         DbUpdateItems ''prefs'' \<lparr>insert' = [], delete' = [''theme'']\<rparr>]"
    using f1 by (simp add: flushPending_database s3 mapToJson_def assign_def)
  with db4 c4 have d4: "database s4 =
         [DbInit dir uri, DbGetItems ''prefs'',
          DbUpdateItems ''prefs'' \<lparr>insert' = [], delete' = [''theme'']\<rparr>,
          DbClose (cache s4)]"
    by simp
  have k4: "''theme'' \<notin> set (map fst (cache s4))"
    using c3 c4 by (simp add: map_of_eq_None_iff)
  show ?thesis
    unfolding Let_def
    using g1 n2 g3 d4 k4
    by (simp add: s0_def [symmetric] s1_def [symmetric] s3_def [symmetric] s4_def [symmetric])
qed

subsection \<open>The pending collections stay disjoint\<close>

text \<open>
  C9. Starting from empty pending collections, after every sequence of \<^verbatim>\<open>set\<close>,
  \<^verbatim>\<open>delete\<close> and \<^verbatim>\<open>flushPending\<close> no key of \<open>pendingInserts\<close> is a member of
  \<open>pendingDeletes\<close>.
\<close>

theorem pending_collections_exclusive:
  assumes "pendingInserts st = []" and "pendingDeletes st = []"
  shows "set (map fst (pendingInserts (run J calls st))) \<inter> set (pendingDeletes (run J calls st)) = {}"
proof -
  have "exclusivePending st"
    using assms by (simp add: exclusivePending_def)
  then have "exclusivePending (run J calls st)"
    by (rule exclusive_run)
  then show ?thesis
    by (simp add: exclusivePending_def)
qed

theorem pending_collections_exclusive_witness:
  "pendingInserts prefs = [] \<and> pendingDeletes prefs = []
   \<and> set (map fst (pendingInserts (run ECMAScript
        [Set ''theme'' (Str ''dark''), Set ''font'' (Num (Finite 12)), Delete ''theme'',
         FlushPending True, Set ''theme'' (Str ''dark''), Delete ''font''] prefs)))
     \<inter> set (pendingDeletes (run ECMAScript
        [Set ''theme'' (Str ''dark''), Set ''font'' (Num (Finite 12)), Delete ''theme'',
         FlushPending True, Set ''theme'' (Str ''dark''), Delete ''font''] prefs)) = {}"
proof -
  have p: "pendingInserts prefs = []" and d: "pendingDeletes prefs = []"
    unfolding prefs_eq by simp_all
  show ?thesis
    using p d pending_collections_exclusive [OF p d] by blast
qed

subsection \<open>Initialising again\<close>

text \<open>
  C10. \<^verbatim>\<open>init(name)\<close> leaves both pending collections as they were. When the local
  mirror has data for the name, or it has none and the store answers, \<^verbatim>\<open>init\<close>
  succeeds and the cache is exactly what was loaded; the state is then Initialized,
  and when the ledger was not empty the next flush sends the store the batch built
  from the collections as they were before \<^verbatim>\<open>init\<close>.
\<close>

theorem init_keeps_pending:
  "pendingInserts (snd (init name answer st)) = pendingInserts st
   \<and> pendingDeletes (snd (init name answer st)) = pendingDeletes st
   \<and> (getData name st = Some data \<longrightarrow>
        fst (init name answer st) = Fulfilled \<and> cache (snd (init name answer st)) = jsonToMap data)
   \<and> (getData name st = None \<and> answer = Items data \<longrightarrow>
        fst (init name answer st) = Fulfilled \<and> cache (snd (init name answer st)) = jsonToMap data)
   \<and> (fst (init name answer st) = Fulfilled \<longrightarrow>
        state (snd (init name answer st)) = Initialized
      \<and> (\<not> (pendingInserts st = [] \<and> pendingDeletes st = []) \<longrightarrow>
           database (snd (flushPending ok (snd (init name answer st)))) =
             database (snd (init name answer st))
             @ [DbUpdateItems (storageName st)
                 \<lparr>insert' = mapToJson (pendingInserts st), delete' = pendingDeletes st\<rparr>]))"
proof (intro conjI impI)
  show "pendingInserts (snd (init name answer st)) = pendingInserts st"
    and "pendingDeletes (snd (init name answer st)) = pendingDeletes st"
    by (simp_all add: init_fields)
next
  assume "getData name st = Some data"
  then show "fst (init name answer st) = Fulfilled"
    and "cache (snd (init name answer st)) = jsonToMap data"
    by (simp_all add: init_def)
next
  assume "getData name st = None \<and> answer = Items data"
  then show "fst (init name answer st) = Fulfilled"
    and "cache (snd (init name answer st)) = jsonToMap data"
    by (simp_all add: init_def Let_def split: option.splits)
next
  assume f: "fst (init name answer st) = Fulfilled"
  then show "state (snd (init name answer st)) = Initialized"
    by (simp add: init_fulfilled)
  assume ne: "\<not> (pendingInserts st = [] \<and> pendingDeletes st = [])"
  have r: "readyDeferred (snd (init name answer st))"
    using f by (simp add: init_fulfilled)
  show "database (snd (flushPending ok (snd (init name answer st)))) =
             database (snd (init name answer st))
             @ [DbUpdateItems (storageName st)
                 \<lparr>insert' = mapToJson (pendingInserts st), delete' = pendingDeletes st\<rparr>]"
    using ne by (simp add: flushPending_database [OF r] init_fields)
qed

theorem init_keeps_pending_witness:
  "getData ''prefs'' prefs_dark = None
   \<and> \<not> (pendingInserts prefs_dark = [] \<and> pendingDeletes prefs_dark = [])
   \<and> fst (init ''prefs'' (Items [(''theme'', ''1'')]) prefs_dark) = Fulfilled
   \<and> state (snd (init ''prefs'' (Items [(''theme'', ''1'')]) prefs_dark)) = Initialized
   \<and> cache (snd (init ''prefs'' (Items [(''theme'', ''1'')]) prefs_dark)) = [(''theme'', ''1'')]
   \<and> pendingInserts (snd (init ''prefs'' (Items [(''theme'', ''1'')]) prefs_dark))
       = [(''theme'', CHR 0x22 # ''dark'' @ [CHR 0x22])]
   \<and> pendingDeletes (snd (init ''prefs'' (Items [(''theme'', ''1'')]) prefs_dark)) = []
   \<and> database (snd (flushPending True (snd (init ''prefs'' (Items [(''theme'', ''1'')]) prefs_dark))))
       = [DbInit None None, DbGetItems ''prefs'', DbInit None None, DbGetItems ''prefs'',
          DbUpdateItems ''prefs''
            \<lparr>insert' = [(''theme'', CHR 0x22 # ''dark'' @ [CHR 0x22])], delete' = []\<rparr>]"
proof -
  let ?i = "init ''prefs'' (Items [(''theme'', ''1'')]) prefs_dark"
  have g: "getData ''prefs'' prefs_dark = None"
    and p: "pendingInserts prefs_dark = [(''theme'', CHR 0x22 # ''dark'' @ [CHR 0x22])]"
    and d: "pendingDeletes prefs_dark = []"
    and n: "storageName prefs_dark = ''prefs''"
    unfolding prefs_dark_eq by (simp_all add: getData_def)
  have ne: "\<not> (pendingInserts prefs_dark = [] \<and> pendingDeletes prefs_dark = [])"
    using p by simp
  have db: "database (snd ?i)
      = [DbInit None None, DbGetItems ''prefs'', DbInit None None, DbGetItems ''prefs'']"
    unfolding prefs_dark_eq by (simp add: init_def getData_def)
  note t = init_keeps_pending [of "''prefs''" "Items [(''theme'', ''1'')]" prefs_dark
      "[(''theme'', ''1'')]" True]
  have a: "fst ?i = Fulfilled" and "cache (snd ?i) = jsonToMap [(''theme'', ''1'')]"
    using t g by blast+
  then have c: "cache (snd ?i) = [(''theme'', ''1'')]"
    by (simp add: jsonToMap_def assign_def)
  have s: "state (snd ?i) = Initialized"
    using t a by blast
  have pi: "pendingInserts (snd ?i) = [(''theme'', CHR 0x22 # ''dark'' @ [CHR 0x22])]"
    and pd: "pendingDeletes (snd ?i) = []"
    using t p d by simp_all
  have "database (snd (flushPending True (snd ?i))) =
      database (snd ?i) @ [DbUpdateItems (storageName prefs_dark)
        \<lparr>insert' = mapToJson (pendingInserts prefs_dark), delete' = pendingDeletes prefs_dark\<rparr>]"
    using t a ne by blast
  then have e: "database (snd (flushPending True (snd ?i)))
       = [DbInit None None, DbGetItems ''prefs'', DbInit None None, DbGetItems ''prefs'',
          DbUpdateItems ''prefs''
            \<lparr>insert' = [(''theme'', CHR 0x22 # ''dark'' @ [CHR 0x22])], delete' = []\<rparr>]"
    by (simp add: db p d n mapToJson_def assign_def)
  show ?thesis
    using g ne a s c pi pd e by blast
qed

end
